theory Spec2Isabelle
  imports Main
begin

section \<open>The mesh-wide mTLS checker\<close>

subsection \<open>Findings\<close>

text \<open>
  Modelled from the spec: the declaration of \<open>models.IstioCheck\<close> is not among the
  sources. The spec's data model gives a finding the fields code, severity (Error,
  Warning or Info), path and message.
\<close>

datatype SeverityLevel = ErrorSeverity | WarningSeverity | InfoSeverity

record IstioCheck =
  Code :: string
  Severity :: SeverityLevel
  Path :: string
  Message :: string

text \<open>
  Modelled from the spec: \<open>models.Build\<close> and the table of check descriptors it reads
  are not among the sources. By the spec (4.2, step 5) the finding built for a check id
  carries that id as its code and the path it was built with. Severity and message belong
  to the descriptor of the id; the table is the parameter \<open>checkDescriptors\<close>, a total
  function as a Go map lookup is (an absent key reads as the zero value).
\<close>

definition Build :: "(string \<Rightarrow> SeverityLevel \<times> string) \<Rightarrow> string \<Rightarrow> string \<Rightarrow> IstioCheck" where
  "Build checkDescriptors checkId path =
     \<lparr>Code = checkId,
      Severity = fst (checkDescriptors checkId),
      Path = path,
      Message = snd (checkDescriptors checkId)\<rparr>"

subsection \<open>The checker and its input\<close>

text \<open>
  \<open>kubernetes.IstioObject\<close> is the type parameter \<open>'o\<close>: its declaration is not among the
  sources, and \<open>Check\<close> only hands such objects to the two helpers of package
  \<open>kubernetes\<close>. Of \<open>kubernetes.MTLSDetails\<close> the source reads the field
  \<open>DestinationRules\<close>, a slice, here a list (a nil slice is the empty list).
\<close>

record 'o MTLSDetails =
  DestinationRules :: "'o list"

record 'o MeshMtlsChecker =
  MeshPolicy :: 'o
  MTLSDetails :: "'o MTLSDetails"
  IsServiceMesh :: bool

text \<open>
  The \<open>for\<close> loop of \<open>Check\<close> over the destination rules. Its body returns from
  \<open>Check\<close> at the first rule for which the helper answers \<open>enabled\<close>; the second
  value of the helper is discarded (\<open>enabled, _ :=\<close>). \<open>Some r\<close> is that early return,
  \<open>None\<close> is the loop running to its end.
\<close>

fun rangeDestinationRules ::
  "('o \<Rightarrow> bool \<times> 'm) \<Rightarrow> IstioCheck list \<Rightarrow> 'o list \<Rightarrow> (IstioCheck list \<times> bool) option" where
  "rangeDestinationRules DestinationRuleHasMeshWideMTLSEnabled validations [] = None"
| "rangeDestinationRules DestinationRuleHasMeshWideMTLSEnabled validations (dr # drs) =
     (let (enabled, _) = DestinationRuleHasMeshWideMTLSEnabled dr in
      if enabled then Some (validations, True)
      else rangeDestinationRules DestinationRuleHasMeshWideMTLSEnabled validations drs)"

text \<open>
  \<open>MeshMtlsChecker.Check\<close>. The helpers \<open>kubernetes.PeerAuthnHasStrictMTLS\<close> and
  \<open>kubernetes.DestinationRuleHasMeshWideMTLSEnabled\<close> are not among the sources; they
  are the first two parameters, pure functions of the object they are given. The third
  parameter is the descriptor table read by \<open>models.Build\<close>.
\<close>

definition Check ::
  "('o \<Rightarrow> bool) \<Rightarrow> ('o \<Rightarrow> bool \<times> 'm) \<Rightarrow> (string \<Rightarrow> SeverityLevel \<times> string) \<Rightarrow>
   'o MeshMtlsChecker \<Rightarrow> IstioCheck list \<times> bool" where
  "Check PeerAuthnHasStrictMTLS DestinationRuleHasMeshWideMTLSEnabled checkDescriptors t =
     (let validations = [] in
      if \<not> PeerAuthnHasStrictMTLS (MeshPolicy t) then (validations, True)
      else
        case rangeDestinationRules DestinationRuleHasMeshWideMTLSEnabled validations
               (DestinationRules (MTLSDetails t)) of
          Some r \<Rightarrow> r
        | None \<Rightarrow>
            (let check = Build checkDescriptors
                           ''peerauthentication.mtls.destinationrulemissing'' ''spec/mtls'';
                 validations = validations @ [check]
             in (validations, False)))"

subsection \<open>Configuration objects as the spec describes them\<close>

text \<open>
  Modelled from the spec: the declarations behind \<open>kubernetes.IstioObject\<close> are not
  among the sources. The spec's data model has a ConfigObject with kind, namespace, name
  and the spec fields relevant to mTLS and traffic; a PeerAuthenticationPolicy has scope,
  mode and an optional selector; a DestinationRule has a host pattern and the flag of its
  traffic policy (mesh-managed mTLS or none). A field the object lacks is \<open>None\<close>.
\<close>

datatype MTLSMode = Unset | Permissive | Strict | Disable

datatype Scope = MeshScope | NamespaceScope | WorkloadScope

datatype ConfigSpec =
    PeerAuthenticationPolicy "Scope option" "MTLSMode option" "(string \<times> string) list option"
  | DestinationRule "string option" "bool option"

record ConfigObject =
  kind :: string
  namespace :: string
  name :: string
  spec :: ConfigSpec

text \<open>
  Modelled from the spec: the mode a policy declares. By the spec's error taxonomy
  (MalformedObject) an object missing an expected field is treated as Unset.
\<close>

fun declaredMode :: "ConfigSpec \<Rightarrow> MTLSMode" where
  "declaredMode (PeerAuthenticationPolicy _ (Some m) _) = m"
| "declaredMode (PeerAuthenticationPolicy _ None _) = Unset"
| "declaredMode (DestinationRule _ _) = Unset"

text \<open>
  Modelled from the spec: whether the object is a policy that has the mode field the
  checker expects.
\<close>

fun declaresMode :: "ConfigSpec \<Rightarrow> bool" where
  "declaresMode (PeerAuthenticationPolicy _ (Some _) _) = True"
| "declaresMode _ = False"

text \<open>
  Modelled from the spec: \<open>kubernetes.PeerAuthnHasStrictMTLS\<close> is not among the sources.
  By the spec (4.1, 4.2 step 5) the checker goes on to the traffic rules exactly when the
  mode of the governing policy is Strict.
\<close>

definition PeerAuthnHasStrictMTLS :: "ConfigObject \<Rightarrow> bool" where
  "PeerAuthnHasStrictMTLS peerAuthn = (declaredMode (spec peerAuthn) = Strict)"

text \<open>
  Modelled from the spec: \<open>kubernetes.DestinationRuleHasMeshWideMTLSEnabled\<close> is not
  among the sources. By the spec (4.2 step 5, scenario B) a traffic rule qualifies at mesh
  scope when its host is the mesh-wide wildcard \<open>*.local\<close> and its traffic policy
  enables mesh-managed mTLS; a missing field is treated as disabled. The spec says nothing
  of the helper's second value, which \<open>Check\<close> discards: it is the unit value here.
\<close>

fun meshWideMTLSEnabled :: "ConfigSpec \<Rightarrow> bool" where
  "meshWideMTLSEnabled (DestinationRule (Some h) (Some flag)) = (h = ''*.local'' \<and> flag)"
| "meshWideMTLSEnabled _ = False"

definition DestinationRuleHasMeshWideMTLSEnabled :: "ConfigObject \<Rightarrow> bool \<times> unit" where
  "DestinationRuleHasMeshWideMTLSEnabled destinationRule =
     (meshWideMTLSEnabled (spec destinationRule), ())"

subsection \<open>Contradictory traffic rules, and objects to run the checker on\<close>

text \<open>
  Modelled from the spec: the condition of the spec's resolver step 6, "multiple traffic
  rules cover the same host with contradictory mTLS settings": two destination rules of
  the list name the same host, one with mesh-managed mTLS enabled and one without.
\<close>

fun ruleHost :: "ConfigObject \<Rightarrow> string option" where
  "ruleHost dr = (case spec dr of DestinationRule h _ \<Rightarrow> h | _ \<Rightarrow> None)"

fun ruleEnablesMTLS :: "ConfigObject \<Rightarrow> bool" where
  "ruleEnablesMTLS dr = (case spec dr of DestinationRule _ (Some flag) \<Rightarrow> flag | _ \<Rightarrow> False)"

definition contradictoryRules :: "ConfigObject list \<Rightarrow> bool" where
  "contradictoryRules drs =
     list_ex (\<lambda>a. list_ex (\<lambda>b. ruleHost a \<noteq> None \<and> ruleHost a = ruleHost b \<and>
                                   ruleEnablesMTLS a \<and> \<not> ruleEnablesMTLS b) drs) drs"

text \<open>
  The objects of the spec's scenario B, a mesh-scope Strict policy and a traffic rule for
  host \<open>*.local\<close> with mesh-managed mTLS enabled, then a rule for the same host with
  mTLS off, a policy whose mode field is missing, and a descriptor table holding the one
  entry the spec describes (an Error finding; the spec gives no message text, and every
  other key reads as Info with no message).
\<close>

definition meshStrictPolicy :: ConfigObject where
  "meshStrictPolicy =
     \<lparr>kind = ''PeerAuthentication'', namespace = ''istio-system'', name = ''default'',
      spec = PeerAuthenticationPolicy (Some MeshScope) (Some Strict) None\<rparr>"

definition meshModelessPolicy :: ConfigObject where
  "meshModelessPolicy =
     \<lparr>kind = ''PeerAuthentication'', namespace = ''istio-system'', name = ''default'',
      spec = PeerAuthenticationPolicy (Some MeshScope) None None\<rparr>"

definition meshWideRule :: ConfigObject where
  "meshWideRule =
     \<lparr>kind = ''DestinationRule'', namespace = ''istio-system'', name = ''default'',
      spec = DestinationRule (Some ''*.local'') (Some True)\<rparr>"

definition meshWidePlainRule :: ConfigObject where
  "meshWidePlainRule =
     \<lparr>kind = ''DestinationRule'', namespace = ''istio-system'', name = ''plain'',
      spec = DestinationRule (Some ''*.local'') (Some False)\<rparr>"

definition oneDescriptor :: "string \<Rightarrow> SeverityLevel \<times> string" where
  "oneDescriptor checkId =
     (if checkId = ''peerauthentication.mtls.destinationrulemissing''
      then (ErrorSeverity, '''') else (InfoSeverity, ''''))"

definition checkerOn :: "ConfigObject \<Rightarrow> ConfigObject list \<Rightarrow> ConfigObject MeshMtlsChecker" where
  "checkerOn policy drs =
     \<lparr>MeshPolicy = policy, MTLSDetails = \<lparr>DestinationRules = drs\<rparr>, IsServiceMesh = False\<rparr>"

text \<open>
  Helpers and a descriptor table as a second invocation of the checker might find them:
  they answer as the ones above do for the policy named \<open>default\<close>, for the rules of
  namespace \<open>istio-system\<close> and for the one check id, and differently everywhere else;
  the second value of the rule helper is of another type.
\<close>

definition otherStrictMTLS :: "ConfigObject \<Rightarrow> bool" where
  "otherStrictMTLS peerAuthn =
     (if name peerAuthn = ''default'' then PeerAuthnHasStrictMTLS peerAuthn else True)"

definition otherMeshWideMTLSEnabled :: "ConfigObject \<Rightarrow> bool \<times> string" where
  "otherMeshWideMTLSEnabled destinationRule =
     (if namespace destinationRule = ''istio-system''
      then (meshWideMTLSEnabled (spec destinationRule), name destinationRule)
      else (True, ''''))"

definition otherDescriptor :: "string \<Rightarrow> SeverityLevel \<times> string" where
  "otherDescriptor checkId =
     (if checkId = ''peerauthentication.mtls.destinationrulemissing''
      then oneDescriptor checkId else (WarningSeverity, ''other''))"

section \<open>The dashboards service\<close>

subsection \<open>Charts, dashboards and queries\<close>

text \<open>
  The structs of packages \<open>models\<close>, \<open>kubernetes\<close>, \<open>prometheus\<close> and \<open>config\<close> are
  declared outside the sources at hand; each record below has the fields the source reads
  or writes. The types of a chart's \<open>CounterRate\<close> and \<open>Histogram\<close> and of a dashboard's
  \<open>Aggregations\<close> are type parameters. \<open>CounterRate\<close> and \<open>Histogram\<close> are \<open>None\<close>
  while the field still has the zero value a struct literal leaves it with, and
  \<open>Some v\<close> once \<open>v\<close> was assigned to it.
\<close>

record ('m, 'h) Chart =
  Name :: string
  Unit :: string
  Spans :: int
  CounterRate :: "'m option"
  Histogram :: "'h option"

record ('m, 'h, 'a) MonitoringDashboard =
  Title :: string
  Charts :: "('m, 'h) Chart list"
  Aggregations :: 'a

text \<open>
  \<open>kubernetes.MonitoringDashboard\<close>, the template: the source reads \<open>Spec.Title\<close> and
  \<open>Spec.Charts\<close>, and of a chart of the template \<open>MetricType\<close> and \<open>MetricName\<close>.
  Whatever else a template chart holds is the extension of the record scheme.
\<close>

record MonitoringDashboardChart =
  MetricType :: string
  MetricName :: string

record 'c MonitoringDashboardSpec =
  Spec_Title :: string
  Spec_Charts :: "'c list"

record 'c kubernetes_MonitoringDashboard =
  Spec :: "'c MonitoringDashboardSpec"

record 'b CustomMetricsQuery =
  Namespace :: string
  App :: string
  Version :: string
  ByLabels :: "string list"
  BaseMetricsQuery :: 'b

record IstioMetricsQuery =
  Direction :: string

record ('m, 'h) Metrics =
  Metrics :: "string \<rightharpoonup> 'm"
  Histograms :: "string \<rightharpoonup> 'h"

record Config =
  IstioNamespace :: string

subsection \<open>The collaborators\<close>

text \<open>
  \<open>prometheus.ClientInterface\<close>: the three methods the service calls, as pure functions
  of their arguments. \<open>GetMetrics\<close> returns the metrics themselves, two maps from a
  reference name; reading a key that a Go map lacks is the lookup that answers \<open>None\<close>.
\<close>

record ('b, 'q, 'm, 'h) ClientInterface =
  FetchRateRange :: "string \<Rightarrow> string \<Rightarrow> string \<Rightarrow> 'b \<Rightarrow> 'm"
  FetchHistogramRange :: "string \<Rightarrow> string \<Rightarrow> string \<Rightarrow> 'b \<Rightarrow> 'h"
  GetMetrics :: "'q \<Rightarrow> ('m, 'h) Metrics"

text \<open>
  \<open>kubernetes.KialiMonitoringInterface\<close>: its method \<open>GetDashboard\<close> (namespace,
  template name) returns a dashboard and an error. Here it answers \<open>Inl err\<close> for an
  error that is not nil, and \<open>Inr dashboard\<close> for a nil error, which comes with the
  dashboard the service goes on to read. The client has a state of its own, of type
  \<open>'s\<close>, which a call may read and change.
\<close>

record ('s, 'e, 'c) KialiMonitoringInterface =
  mon_GetDashboard :: "'s \<Rightarrow> string \<Rightarrow> string \<Rightarrow> ('e + 'c kubernetes_MonitoringDashboard) \<times> 's"

record ('b, 'q, 'm, 'h, 's, 'e, 'c) DashboardsService =
  prom :: "('b, 'q, 'm, 'h) ClientInterface"
  mon :: "('s, 'e, 'c) KialiMonitoringInterface"

text \<open>
  The functions of package \<open>models\<close> that the service calls, as parameters: their code
  is not among the sources.
\<close>

record ('c, 'm, 'h, 'a) models =
  ConvertChart :: "'c \<Rightarrow> ('m, 'h) Chart"
  ConvertAggregations :: "'c MonitoringDashboardSpec \<Rightarrow> 'a"
  PrepareIstioDashboard :: "string \<Rightarrow> string \<Rightarrow> string \<Rightarrow> ('m, 'h, 'a) MonitoringDashboard"

subsection \<open>GetDashboard\<close>

text \<open>\<open>strings.Join\<close>.\<close>

fun Join :: "string list \<Rightarrow> string \<Rightarrow> string" where
  "Join [] sep = ''''"
| "Join [e] sep = e"
| "Join (e # es) sep = e @ sep @ Join es sep"

text \<open>The label selector built by the two \<open>fmt.Sprintf\<close> calls.\<close>

definition queryLabels :: "('b, 'z) CustomMetricsQuery_scheme \<Rightarrow> string" where
  "queryLabels params =
     (let labels = ''{namespace=\"'' @ Namespace params @ ''\",app=\"'' @ App params @ ''\"'';
          labels = (if Version params \<noteq> ''''
                    then labels @ '',version=\"'' @ Version params @ ''\"'' else labels)
      in labels @ ''}'')"

text \<open>
  The body of the function literal that fills chart \<open>idx\<close>. Its first statement
  stores the converted chart in \<open>filledCharts[idx]\<close>; its \<open>if\<close> statement then sets
  one field of that element, \<open>CounterRate\<close> for a counter and \<open>Histogram\<close> otherwise.
  \<open>fetchChart\<close> is the \<open>if\<close> statement, applied to the element as it stands, and
  \<open>fillChart\<close> is what the two leave in \<open>filledCharts[idx]\<close>.
\<close>

definition fetchChart ::
  "('b, 'q, 'm, 'h, 's, 'e, 'z MonitoringDashboardChart_scheme) DashboardsService \<Rightarrow>
   string \<Rightarrow> string \<Rightarrow> ('b, 'y) CustomMetricsQuery_scheme \<Rightarrow>
   'z MonitoringDashboardChart_scheme \<Rightarrow> ('m, 'h) Chart \<Rightarrow> ('m, 'h) Chart" where
  "fetchChart svc labels grouping params chart filled =
     (if MetricType chart = ''counter''
      then filled\<lparr>CounterRate :=
             Some (FetchRateRange (prom svc) (MetricName chart) labels grouping
                     (BaseMetricsQuery params))\<rparr>
      else filled\<lparr>Histogram :=
             Some (FetchHistogramRange (prom svc) (MetricName chart) labels grouping
                     (BaseMetricsQuery params))\<rparr>)"

definition fillChart ::
  "('z MonitoringDashboardChart_scheme, 'm, 'h, 'a) models \<Rightarrow>
   ('b, 'q, 'm, 'h, 's, 'e, 'z MonitoringDashboardChart_scheme) DashboardsService \<Rightarrow>
   string \<Rightarrow> string \<Rightarrow> ('b, 'y) CustomMetricsQuery_scheme \<Rightarrow>
   'z MonitoringDashboardChart_scheme \<Rightarrow> ('m, 'h) Chart" where
  "fillChart models svc labels grouping params chart =
     fetchChart svc labels grouping params chart (ConvertChart models chart)"

text \<open>
  \<open>GetDashboard\<close> from the label selector on, for the template \<open>dashboard\<close> that a
  lookup found. The list of filled charts is the array \<open>filledCharts\<close> as it is once
  every function literal has run.
\<close>

definition fillDashboard ::
  "('z MonitoringDashboardChart_scheme, 'm, 'h, 'a) models \<Rightarrow>
   ('b, 'q, 'm, 'h, 's, 'e, 'z MonitoringDashboardChart_scheme) DashboardsService \<Rightarrow>
   'b CustomMetricsQuery \<Rightarrow>
   'z MonitoringDashboardChart_scheme kubernetes_MonitoringDashboard \<Rightarrow>
   ('m, 'h, 'a) MonitoringDashboard option \<times> 'e option" where
  "fillDashboard models svc params dashboard =
     (let labels = queryLabels params;
          grouping = Join (ByLabels params) '','';
          filledCharts = map (fillChart models svc labels grouping params)
                           (Spec_Charts (Spec dashboard))
      in (Some \<lparr>Title = Spec_Title (Spec dashboard),
                 Charts = filledCharts,
                 Aggregations = ConvertAggregations models (Spec dashboard)\<rparr>,
          None))"

text \<open>
  \<open>DashboardsService.GetDashboard\<close>. The Go result \<open>(*models.MonitoringDashboard, error)\<close>
  is a pair of options, \<open>None\<close> for \<open>nil\<close>; the state of the monitoring client is
  threaded through the lookups and returned with the result. \<open>cfg\<close> is what
  \<open>config.Get()\<close> returns.
\<close>

definition GetDashboard ::
  "('z MonitoringDashboardChart_scheme, 'm, 'h, 'a) models \<Rightarrow> Config \<Rightarrow>
   ('b, 'q, 'm, 'h, 's, 'e, 'z MonitoringDashboardChart_scheme) DashboardsService \<Rightarrow>
   's \<Rightarrow> 'b CustomMetricsQuery \<Rightarrow> string \<Rightarrow>
   (('m, 'h, 'a) MonitoringDashboard option \<times> 'e option) \<times> 's" where
  "GetDashboard models cfg svc ms params template =
     (case mon_GetDashboard (mon svc) ms (Namespace params) template of
        (Inr dashboard, ms1) \<Rightarrow> (fillDashboard models svc params dashboard, ms1)
      | (Inl err, ms1) \<Rightarrow>
          (case mon_GetDashboard (mon svc) ms1 (IstioNamespace cfg) template of
             (Inl err, ms2) \<Rightarrow> ((None, Some err), ms2)
           | (Inr dashboard, ms2) \<Rightarrow> (fillDashboard models svc params dashboard, ms2)))"

subsection \<open>GetIstioDashboard\<close>

record ('m, 'h) istioChart =
  Chart :: "('m, 'h) Chart"
  refName :: string

definition istioCharts :: "('m, 'h) istioChart list" where
  "istioCharts =
     [\<lparr>Chart = \<lparr>Name = ''Request volume'', Unit = ''ops'', Spans = 12,
                 CounterRate = None, Histogram = None\<rparr>,
       refName = ''request_count''\<rparr>,
      \<lparr>Chart = \<lparr>Name = ''Request duration'', Unit = ''s'', Spans = 12,
                 CounterRate = None, Histogram = None\<rparr>,
       refName = ''request_duration''\<rparr>,
      \<lparr>Chart = \<lparr>Name = ''Request size'', Unit = ''B'', Spans = 12,
                 CounterRate = None, Histogram = None\<rparr>,
       refName = ''request_size''\<rparr>,
      \<lparr>Chart = \<lparr>Name = ''Response size'', Unit = ''B'', Spans = 12,
                 CounterRate = None, Histogram = None\<rparr>,
       refName = ''response_size''\<rparr>,
      \<lparr>Chart = \<lparr>Name = ''TCP received'', Unit = ''bps'', Spans = 12,
                 CounterRate = None, Histogram = None\<rparr>,
       refName = ''tcp_received''\<rparr>,
      \<lparr>Chart = \<lparr>Name = ''TCP sent'', Unit = ''bps'', Spans = 12,
                 CounterRate = None, Histogram = None\<rparr>,
       refName = ''tcp_sent''\<rparr>]"

text \<open>The body of the loop over \<open>istioCharts\<close>: the chart appended for one template.\<close>

definition newChart :: "('m, 'h) Metrics \<Rightarrow> ('m, 'h) istioChart \<Rightarrow> ('m, 'h) Chart" where
  "newChart metrics chartTpl =
     (let newChart = Chart chartTpl;
          newChart = (case Metrics metrics (refName chartTpl) of
                        Some metric \<Rightarrow> newChart\<lparr>CounterRate := Some metric\<rparr>
                      | None \<Rightarrow> newChart);
          newChart = (case Histograms metrics (refName chartTpl) of
                        Some histo \<Rightarrow> newChart\<lparr>Histogram := Some histo\<rparr>
                      | None \<Rightarrow> newChart)
      in newChart)"

fun rangeIstioCharts ::
  "('m, 'h) Metrics \<Rightarrow> ('m, 'h, 'a) MonitoringDashboard \<Rightarrow> ('m, 'h) istioChart list \<Rightarrow>
   ('m, 'h, 'a) MonitoringDashboard" where
  "rangeIstioCharts metrics dashboard [] = dashboard"
| "rangeIstioCharts metrics dashboard (chartTpl # rest) =
     rangeIstioCharts metrics
       (dashboard\<lparr>Charts := Charts dashboard @ [newChart metrics chartTpl]\<rparr>) rest"

text \<open>The \<open>if\<close> that copies the dashboard for the direction of the query.\<close>

definition copyDashboard ::
  "('c, 'm, 'h, 'a) models \<Rightarrow> IstioMetricsQuery \<Rightarrow> ('m, 'h, 'a) MonitoringDashboard" where
  "copyDashboard models params =
     (if Direction params = ''inbound''
      then PrepareIstioDashboard models ''Inbound'' ''destination'' ''source''
      else PrepareIstioDashboard models ''Outbound'' ''source'' ''destination'')"

definition GetIstioDashboard ::
  "('c, 'm, 'h, 'a) models \<Rightarrow>
   ('b, IstioMetricsQuery, 'm, 'h, 's, 'e, 'c) DashboardsService \<Rightarrow>
   IstioMetricsQuery \<Rightarrow> ('m, 'h, 'a) MonitoringDashboard option \<times> 'e option" where
  "GetIstioDashboard models svc params =
     (let dashboard = copyDashboard models params;
          metrics = GetMetrics (prom svc) params;
          dashboard = rangeIstioCharts metrics dashboard istioCharts
      in (Some dashboard, None))"

subsection \<open>The fan-out of GetDashboard, thread by thread\<close>

text \<open>
  The part of \<open>GetDashboard\<close> from \<open>sync.WaitGroup{}\<close> to its last \<open>return\<close>, as an
  interleaving of the calling thread and the goroutines it starts, one statement at a
  time. A goroutine is at one of its three statements (the conversion, the fetch, the
  deferred \<open>wg.Done()\<close>), not yet started, or finished. The calling thread is in its
  \<open>for\<close> loop at index \<open>i\<close>, in \<open>wg.Wait()\<close>, or has returned a dashboard. The state
  holds what the threads share: the counter of the wait group and the array
  \<open>filledCharts\<close>.
\<close>

datatype goroutine = NotStarted | AtConvert | AtFetch | AtDone | Finished

datatype ('m, 'h, 'a) caller =
    Spawning nat
  | Waiting
  | Returned "('m, 'h, 'a) MonitoringDashboard"

record ('m, 'h, 'a) fanout =
  wg :: int
  filledCharts :: "('m, 'h) Chart list"
  goroutines :: "goroutine list"
  caller :: "('m, 'h, 'a) caller"

text \<open>The zero value of \<open>models.Chart\<close>, which \<open>make\<close> fills the slice with.\<close>

definition zeroChart :: "('m, 'h) Chart" where
  "zeroChart = \<lparr>Name = '''', Unit = '''', Spans = 0, CounterRate = None, Histogram = None\<rparr>"

text \<open>
  The state after \<open>wg.Add(len(dashboard.Spec.Charts))\<close> and \<open>make\<close>, before the loop.
\<close>

definition startFanout ::
  "'c kubernetes_MonitoringDashboard \<Rightarrow> ('m, 'h, 'a) fanout" where
  "startFanout dashboard =
     (let n = length (Spec_Charts (Spec dashboard)) in
      \<lparr>wg = int n,
       filledCharts = replicate n zeroChart,
       goroutines = replicate n NotStarted,
       caller = Spawning 0\<rparr>)"

text \<open>
  One step of the calling thread: a \<open>go\<close> statement of the loop, the end of the loop,
  or the return from \<open>wg.Wait()\<close>, which takes place only at counter zero and builds the
  result from \<open>filledCharts\<close> as it is then. \<open>None\<close>: the thread cannot move.
\<close>

definition callerStep ::
  "('c, 'm, 'h, 'a) models \<Rightarrow> 'c kubernetes_MonitoringDashboard \<Rightarrow>
   ('m, 'h, 'a) fanout \<Rightarrow> ('m, 'h, 'a) fanout option" where
  "callerStep models dashboard s =
     (case caller s of
        Spawning i \<Rightarrow>
          if i < length (Spec_Charts (Spec dashboard))
          then Some (s\<lparr>goroutines := (goroutines s)[i := AtConvert], caller := Spawning (Suc i)\<rparr>)
          else Some (s\<lparr>caller := Waiting\<rparr>)
      | Waiting \<Rightarrow>
          if wg s = 0
          then Some (s\<lparr>caller := Returned
                 \<lparr>Title = Spec_Title (Spec dashboard),
                  Charts = filledCharts s,
                  Aggregations = ConvertAggregations models (Spec dashboard)\<rparr>\<rparr>)
          else None
      | Returned d \<Rightarrow> None)"

text \<open>
  One step of goroutine \<open>idx\<close>, started with \<open>chart = dashboard.Spec.Charts[idx]\<close>.
\<close>

definition goroutineStep ::
  "('z MonitoringDashboardChart_scheme, 'm, 'h, 'a) models \<Rightarrow>
   ('b, 'q, 'm, 'h, 's, 'e, 'z MonitoringDashboardChart_scheme) DashboardsService \<Rightarrow>
   'b CustomMetricsQuery \<Rightarrow>
   'z MonitoringDashboardChart_scheme kubernetes_MonitoringDashboard \<Rightarrow>
   nat \<Rightarrow> ('m, 'h, 'a) fanout \<Rightarrow> ('m, 'h, 'a) fanout option" where
  "goroutineStep models svc params dashboard idx s =
     (let labels = queryLabels params;
          grouping = Join (ByLabels params) '','' in
      if idx < length (goroutines s) \<and> idx < length (Spec_Charts (Spec dashboard))
      then
        (let chart = Spec_Charts (Spec dashboard) ! idx in
         case goroutines s ! idx of
           NotStarted \<Rightarrow> None
         | AtConvert \<Rightarrow>
             Some (s\<lparr>filledCharts := (filledCharts s)[idx := ConvertChart models chart],
                     goroutines := (goroutines s)[idx := AtFetch]\<rparr>)
         | AtFetch \<Rightarrow>
             Some (s\<lparr>filledCharts := (filledCharts s)
                       [idx := fetchChart svc labels grouping params chart (filledCharts s ! idx)],
                     goroutines := (goroutines s)[idx := AtDone]\<rparr>)
         | AtDone \<Rightarrow>
             Some (s\<lparr>wg := wg s - 1, goroutines := (goroutines s)[idx := Finished]\<rparr>)
         | Finished \<Rightarrow> None)
      else None)"

text \<open>
  A schedule names the thread that moves next. \<open>runFanout\<close> executes a schedule from a
  state; \<open>None\<close>: the schedule asks a thread to move that cannot.
\<close>

datatype thread = Caller | Goroutine nat

fun fanoutStep ::
  "('z MonitoringDashboardChart_scheme, 'm, 'h, 'a) models \<Rightarrow>
   ('b, 'q, 'm, 'h, 's, 'e, 'z MonitoringDashboardChart_scheme) DashboardsService \<Rightarrow>
   'b CustomMetricsQuery \<Rightarrow>
   'z MonitoringDashboardChart_scheme kubernetes_MonitoringDashboard \<Rightarrow>
   thread \<Rightarrow> ('m, 'h, 'a) fanout \<Rightarrow> ('m, 'h, 'a) fanout option" where
  "fanoutStep models svc params dashboard Caller s = callerStep models dashboard s"
| "fanoutStep models svc params dashboard (Goroutine idx) s =
     goroutineStep models svc params dashboard idx s"

fun runFanout ::
  "('z MonitoringDashboardChart_scheme, 'm, 'h, 'a) models \<Rightarrow>
   ('b, 'q, 'm, 'h, 's, 'e, 'z MonitoringDashboardChart_scheme) DashboardsService \<Rightarrow>
   'b CustomMetricsQuery \<Rightarrow>
   'z MonitoringDashboardChart_scheme kubernetes_MonitoringDashboard \<Rightarrow>
   thread list \<Rightarrow> ('m, 'h, 'a) fanout \<Rightarrow> ('m, 'h, 'a) fanout option" where
  "runFanout models svc params dashboard [] s = Some s"
| "runFanout models svc params dashboard (t # schedule) s =
     (case fanoutStep models svc params dashboard t s of
        None \<Rightarrow> None
      | Some s' \<Rightarrow> runFanout models svc params dashboard schedule s')"

text \<open>
  What holds in every state of the fan-out: the counter of the wait group is the number
  of goroutines that have not finished; a goroutine past its conversion, or past its
  fetch, has left the converted, or the filled, chart in its element of \<open>filledCharts\<close>;
  the loop has started the goroutines below its index and no other; and the calling
  thread has returned only the dashboard of the filled charts, all goroutines finished.
\<close>

definition fanoutInv ::
  "('z MonitoringDashboardChart_scheme, 'm, 'h, 'a) models \<Rightarrow>
   ('b, 'q, 'm, 'h, 's, 'e, 'z MonitoringDashboardChart_scheme) DashboardsService \<Rightarrow>
   'b CustomMetricsQuery \<Rightarrow>
   'z MonitoringDashboardChart_scheme kubernetes_MonitoringDashboard \<Rightarrow>
   ('m, 'h, 'a) fanout \<Rightarrow> bool" where
  "fanoutInv models svc params dashboard s =
     (let charts = Spec_Charts (Spec dashboard);
          fill = fillChart models svc (queryLabels params) (Join (ByLabels params) '','') params
      in length (goroutines s) = length charts
         \<and> length (filledCharts s) = length charts
         \<and> wg s = int (length (filter (\<lambda>g. g \<noteq> Finished) (goroutines s)))
         \<and> (\<forall>i < length charts. goroutines s ! i = AtFetch \<longrightarrow>
               filledCharts s ! i = ConvertChart models (charts ! i))
         \<and> (\<forall>i < length charts. goroutines s ! i = AtDone \<or> goroutines s ! i = Finished \<longrightarrow>
               filledCharts s ! i = fill (charts ! i))
         \<and> (case caller s of
               Spawning k \<Rightarrow>
                 k \<le> length charts
                 \<and> (\<forall>i < length charts. (k \<le> i) = (goroutines s ! i = NotStarted))
             | Waiting \<Rightarrow> (\<forall>i < length charts. goroutines s ! i \<noteq> NotStarted)
             | Returned d \<Rightarrow>
                 (\<forall>i < length charts. goroutines s ! i = Finished)
                 \<and> d = \<lparr>Title = Spec_Title (Spec dashboard),
                         Charts = map fill charts,
                         Aggregations = ConvertAggregations models (Spec dashboard)\<rparr>))"

text \<open>
  The number of steps a state is away from the return of the calling thread: the
  statements each goroutine still has to execute, and the steps of the calling thread.
\<close>

fun remaining :: "goroutine \<Rightarrow> nat" where
  "remaining NotStarted = 3"
| "remaining AtConvert = 3"
| "remaining AtFetch = 2"
| "remaining AtDone = 1"
| "remaining Finished = 0"

definition stepsLeft :: "'c kubernetes_MonitoringDashboard \<Rightarrow> ('m, 'h, 'a) fanout \<Rightarrow> nat" where
  "stepsLeft dashboard s =
     (case caller s of
        Spawning k \<Rightarrow> length (Spec_Charts (Spec dashboard)) - k + 2
      | Waiting \<Rightarrow> 1
      | Returned d \<Rightarrow> 0)
     + sum_list (map remaining (goroutines s))"

subsection \<open>Collaborators to run the service on\<close>

text \<open>
  A template with a counter chart and a histogram chart; two monitoring clients that log
  each lookup in their state, one that finds no template anywhere and one that finds the
  template in namespace \<open>istio-system\<close> only; a Prometheus client that answers with the
  metric name and the label selector it was asked for; conversions that keep the metric
  name; and a query.
\<close>

definition exampleTemplate :: "MonitoringDashboardChart kubernetes_MonitoringDashboard" where
  "exampleTemplate =
     \<lparr>Spec = \<lparr>Spec_Title = ''JVM'',
              Spec_Charts = [\<lparr>MetricType = ''counter'', MetricName = ''gc_total''\<rparr>,
                             \<lparr>MetricType = ''histogram'', MetricName = ''heap''\<rparr>]\<rparr>\<rparr>"

definition failingMonitor ::
  "((string \<times> string) list, string, MonitoringDashboardChart) KialiMonitoringInterface" where
  "failingMonitor =
     \<lparr>mon_GetDashboard = (\<lambda>calls ns template.
        (Inl (''no dashboard in '' @ ns), calls @ [(ns, template)]))\<rparr>"

definition istioOnlyMonitor ::
  "((string \<times> string) list, string, MonitoringDashboardChart) KialiMonitoringInterface" where
  "istioOnlyMonitor =
     \<lparr>mon_GetDashboard = (\<lambda>calls ns template.
        (if ns = ''istio-system'' then Inr exampleTemplate
         else Inl (''no dashboard in '' @ ns),
         calls @ [(ns, template)]))\<rparr>"

definition exampleService ::
  "((string \<times> string) list, string, MonitoringDashboardChart) KialiMonitoringInterface \<Rightarrow>
   (unit, IstioMetricsQuery, string, string list, (string \<times> string) list, string,
    MonitoringDashboardChart) DashboardsService" where
  "exampleService monitor =
     \<lparr>prom = \<lparr>FetchRateRange = (\<lambda>metricName labels grouping q. metricName @ labels),
              FetchHistogramRange = (\<lambda>metricName labels grouping q. [metricName, labels]),
              GetMetrics = (\<lambda>q. \<lparr>Metrics = [''request_count'' \<mapsto> ''rate''],
                                 Histograms = Map.empty\<rparr>)\<rparr>,
      mon = monitor\<rparr>"

definition exampleModels ::
  "(MonitoringDashboardChart, string, string list, unit) models" where
  "exampleModels =
     \<lparr>ConvertChart = (\<lambda>c.
        \<lparr>Name = MetricName c, Unit = '''', Spans = 6, CounterRate = None, Histogram = None\<rparr>),
      ConvertAggregations = (\<lambda>s. ()),
      PrepareIstioDashboard = (\<lambda>direction local remote.
        \<lparr>Title = direction @ '' Metrics'', Charts = [], Aggregations = ()\<rparr>)\<rparr>"

definition exampleQuery :: "unit CustomMetricsQuery" where
  "exampleQuery =
     \<lparr>Namespace = ''bookinfo'', App = ''reviews'', Version = ''v1'', ByLabels = [],
      BaseMetricsQuery = ()\<rparr>"

definition exampleConfig :: Config where
  "exampleConfig = \<lparr>IstioNamespace = ''istio-system''\<rparr>"

section \<open>Properties of the checker\<close>

lemma rangeDestinationRules_None:
  "(rangeDestinationRules E vs drs = None) = (\<forall>dr \<in> set drs. \<not> fst (E dr))"
  by (induction drs) (auto split: prod.splits)

lemma rangeDestinationRules_Some:
  "rangeDestinationRules E vs drs = Some r \<Longrightarrow> r = (vs, True)"
  by (induction drs) (auto split: prod.splits if_splits)

lemma Check_cases:
  "Check S E D t =
     (if S (MeshPolicy t) \<and> (\<forall>dr \<in> set (DestinationRules (MTLSDetails t)). \<not> fst (E dr))
      then ([Build D ''peerauthentication.mtls.destinationrulemissing'' ''spec/mtls''], False)
      else ([], True))"
proof (cases "rangeDestinationRules E [] (DestinationRules (MTLSDetails t))")
  case None
  then show ?thesis
    using rangeDestinationRules_None [of E "[]" "DestinationRules (MTLSDetails t)"]
    by (simp add: Check_def)
next
  case (Some r)
  then show ?thesis
    using rangeDestinationRules_None [of E "[]" "DestinationRules (MTLSDetails t)"]
      rangeDestinationRules_Some [OF Some]
    by (auto simp: Check_def)
qed

lemmas example_defs =
  meshStrictPolicy_def meshModelessPolicy_def meshWideRule_def meshWidePlainRule_def
  oneDescriptor_def checkerOn_def PeerAuthnHasStrictMTLS_def
  DestinationRuleHasMeshWideMTLSEnabled_def contradictoryRules_def Build_def

text \<open>
  C1: when the helper says that the mesh policy has Strict mTLS and the number of
  destination rules with mesh-wide mTLS enabled is zero, \<open>Check\<close> returns exactly one
  finding, with code \<open>peerauthentication.mtls.destinationrulemissing\<close> and path
  \<open>spec/mtls\<close>, and the validity flag is false.
\<close>

theorem Check_strict_no_rule:
  assumes "S (MeshPolicy t)"
    and "length (filter (\<lambda>dr. fst (E dr)) (DestinationRules (MTLSDetails t))) = 0"
  shows "\<exists>f. fst (Check S E D t) = [f]
           \<and> Code f = ''peerauthentication.mtls.destinationrulemissing''
           \<and> Path f = ''spec/mtls''
           \<and> snd (Check S E D t) = False"
proof -
  from assms(2) have "\<forall>dr \<in> set (DestinationRules (MTLSDetails t)). \<not> fst (E dr)"
    by (simp add: filter_empty_conv)
  with assms(1) show ?thesis
    by (simp add: Check_cases Build_def)
qed

theorem Check_strict_no_rule_witness:
  "PeerAuthnHasStrictMTLS (MeshPolicy (checkerOn meshStrictPolicy [meshWidePlainRule]))
   \<and> length (filter (\<lambda>dr. fst (DestinationRuleHasMeshWideMTLSEnabled dr))
        (DestinationRules (MTLSDetails (checkerOn meshStrictPolicy [meshWidePlainRule])))) = 0
   \<and> (\<exists>f. fst (Check PeerAuthnHasStrictMTLS DestinationRuleHasMeshWideMTLSEnabled oneDescriptor
                (checkerOn meshStrictPolicy [meshWidePlainRule])) = [f]
          \<and> Code f = ''peerauthentication.mtls.destinationrulemissing''
          \<and> Path f = ''spec/mtls''
          \<and> snd (Check PeerAuthnHasStrictMTLS DestinationRuleHasMeshWideMTLSEnabled oneDescriptor
                (checkerOn meshStrictPolicy [meshWidePlainRule])) = False)"
proof -
  have h1: "PeerAuthnHasStrictMTLS (MeshPolicy (checkerOn meshStrictPolicy [meshWidePlainRule]))"
    by (simp add: example_defs)
  have h2: "length (filter (\<lambda>dr. fst (DestinationRuleHasMeshWideMTLSEnabled dr))
        (DestinationRules (MTLSDetails (checkerOn meshStrictPolicy [meshWidePlainRule])))) = 0"
    by (simp add: example_defs)
  show ?thesis
    using h1 h2
      Check_strict_no_rule [where S = PeerAuthnHasStrictMTLS
        and E = DestinationRuleHasMeshWideMTLSEnabled and D = oneDescriptor
        and t = "checkerOn meshStrictPolicy [meshWidePlainRule]"]
    by blast
qed

text \<open>
  C2: when the helper says that the mesh policy does not have Strict mTLS, \<open>Check\<close>
  returns the empty finding list and true, and it does so whatever the destination rules
  are and whatever the helper for destination rules would answer.
\<close>

theorem Check_not_strict:
  assumes "\<not> S (MeshPolicy t)"
  shows "Check S E D t = ([], True)
         \<and> (\<forall>drs E'. Check S E' D (t\<lparr>MTLSDetails := \<lparr>DestinationRules = drs\<rparr>\<rparr>) = ([], True))"
  using assms by (simp add: Check_cases)

theorem Check_not_strict_witness:
  "\<not> PeerAuthnHasStrictMTLS (MeshPolicy (checkerOn meshModelessPolicy [meshWidePlainRule]))
   \<and> Check PeerAuthnHasStrictMTLS DestinationRuleHasMeshWideMTLSEnabled oneDescriptor
       (checkerOn meshModelessPolicy [meshWidePlainRule]) = ([], True)
   \<and> (\<forall>drs E'. Check PeerAuthnHasStrictMTLS (E' :: ConfigObject \<Rightarrow> bool \<times> unit) oneDescriptor
         ((checkerOn meshModelessPolicy [meshWidePlainRule])
            \<lparr>MTLSDetails := \<lparr>DestinationRules = drs\<rparr>\<rparr>) = ([], True))"
proof -
  have h: "\<not> PeerAuthnHasStrictMTLS (MeshPolicy (checkerOn meshModelessPolicy [meshWidePlainRule]))"
    by (simp add: example_defs)
  show ?thesis
    using h
      Check_not_strict [where S = PeerAuthnHasStrictMTLS
        and E = DestinationRuleHasMeshWideMTLSEnabled and D = oneDescriptor
        and t = "checkerOn meshModelessPolicy [meshWidePlainRule]"]
    by blast
qed

text \<open>
  C3: when the helper says that the mesh policy has Strict mTLS and at least one
  destination rule has mesh-wide mTLS enabled, \<open>Check\<close> returns the empty finding list
  and true.
\<close>

theorem Check_strict_with_rule:
  assumes "S (MeshPolicy t)"
    and "\<exists>dr \<in> set (DestinationRules (MTLSDetails t)). fst (E dr)"
  shows "Check S E D t = ([], True)"
  using assms by (simp add: Check_cases)

theorem Check_strict_with_rule_witness:
  "PeerAuthnHasStrictMTLS (MeshPolicy (checkerOn meshStrictPolicy [meshWidePlainRule, meshWideRule]))
   \<and> (\<exists>dr \<in> set (DestinationRules (MTLSDetails
          (checkerOn meshStrictPolicy [meshWidePlainRule, meshWideRule]))).
        fst (DestinationRuleHasMeshWideMTLSEnabled dr))
   \<and> Check PeerAuthnHasStrictMTLS DestinationRuleHasMeshWideMTLSEnabled oneDescriptor
       (checkerOn meshStrictPolicy [meshWidePlainRule, meshWideRule]) = ([], True)"
proof -
  have h1: "PeerAuthnHasStrictMTLS
              (MeshPolicy (checkerOn meshStrictPolicy [meshWidePlainRule, meshWideRule]))"
    by (simp add: example_defs)
  have h2: "\<exists>dr \<in> set (DestinationRules (MTLSDetails
               (checkerOn meshStrictPolicy [meshWidePlainRule, meshWideRule]))).
             fst (DestinationRuleHasMeshWideMTLSEnabled dr)"
    by (simp add: example_defs)
  show ?thesis
    using h1 h2
      Check_strict_with_rule [where S = PeerAuthnHasStrictMTLS
        and E = DestinationRuleHasMeshWideMTLSEnabled and D = oneDescriptor
        and t = "checkerOn meshStrictPolicy [meshWidePlainRule, meshWideRule]"]
    by blast
qed

text \<open>
  C4, as the spec states it, fails: the spec's scenario B with one more rule for the host
  \<open>*.local\<close>, with mTLS off. The two rules contradict each other, and \<open>Check\<close>
  returns no finding at all.
\<close>

theorem Check_contradictory_rules_counterexample:
  "contradictoryRules [meshWideRule, meshWidePlainRule]
   \<and> PeerAuthnHasStrictMTLS meshStrictPolicy
   \<and> Check PeerAuthnHasStrictMTLS DestinationRuleHasMeshWideMTLSEnabled oneDescriptor
       (checkerOn meshStrictPolicy [meshWideRule, meshWidePlainRule]) = ([], True)"
  by (simp add: example_defs Check_cases)

text \<open>
  C4, amended: where destination rules for the same host contradict each other,
  \<open>Check\<close> emits no finding for it. Every finding it returns is the one with code
  \<open>peerauthentication.mtls.destinationrulemissing\<close> and path \<open>spec/mtls\<close>, and when the
  policy is Strict and a rule enables mesh-wide mTLS the result is the empty finding list
  and true.
\<close>

theorem Check_contradictory_rules:
  assumes "contradictoryRules (DestinationRules (MTLSDetails t))"
  shows "list_all (\<lambda>f. Code f = ''peerauthentication.mtls.destinationrulemissing''
                        \<and> Path f = ''spec/mtls'')
           (fst (Check PeerAuthnHasStrictMTLS DestinationRuleHasMeshWideMTLSEnabled D t))
         \<and> (PeerAuthnHasStrictMTLS (MeshPolicy t)
              \<and> list_ex (\<lambda>dr. fst (DestinationRuleHasMeshWideMTLSEnabled dr))
                   (DestinationRules (MTLSDetails t))
            \<longrightarrow> Check PeerAuthnHasStrictMTLS DestinationRuleHasMeshWideMTLSEnabled D t
                  = ([], True))"
  by (simp add: Check_cases Build_def list_ex_iff)

theorem Check_contradictory_rules_witness:
  "contradictoryRules
     (DestinationRules (MTLSDetails (checkerOn meshStrictPolicy [meshWideRule, meshWidePlainRule])))
   \<and> PeerAuthnHasStrictMTLS
       (MeshPolicy (checkerOn meshStrictPolicy [meshWideRule, meshWidePlainRule]))
   \<and> list_ex (\<lambda>dr. fst (DestinationRuleHasMeshWideMTLSEnabled dr))
       (DestinationRules (MTLSDetails (checkerOn meshStrictPolicy [meshWideRule, meshWidePlainRule])))
   \<and> list_all (\<lambda>f. Code f = ''peerauthentication.mtls.destinationrulemissing''
                      \<and> Path f = ''spec/mtls'')
        (fst (Check PeerAuthnHasStrictMTLS DestinationRuleHasMeshWideMTLSEnabled oneDescriptor
                (checkerOn meshStrictPolicy [meshWideRule, meshWidePlainRule])))
   \<and> Check PeerAuthnHasStrictMTLS DestinationRuleHasMeshWideMTLSEnabled oneDescriptor
        (checkerOn meshStrictPolicy [meshWideRule, meshWidePlainRule]) = ([], True)"
proof -
  let ?t = "checkerOn meshStrictPolicy [meshWideRule, meshWidePlainRule]"
  have h: "contradictoryRules (DestinationRules (MTLSDetails ?t))"
    by (simp add: example_defs)
  have s: "PeerAuthnHasStrictMTLS (MeshPolicy ?t)"
    by (simp add: example_defs)
  have e: "list_ex (\<lambda>dr. fst (DestinationRuleHasMeshWideMTLSEnabled dr))
             (DestinationRules (MTLSDetails ?t))"
    by (simp add: example_defs)
  show ?thesis
    using h s e Check_contradictory_rules [OF h, where D = oneDescriptor]
    by simp
qed

text \<open>
  C5: when the descriptor of \<open>peerauthentication.mtls.destinationrulemissing\<close> has Error
  severity, as the spec says of that finding, the validity flag returned by \<open>Check\<close> is
  false if and only if the returned list holds a finding of Error severity.
\<close>

theorem Check_valid_iff_no_error:
  assumes "fst (D ''peerauthentication.mtls.destinationrulemissing'') = ErrorSeverity"
  shows "(snd (Check S E D t) = False)
         = list_ex (\<lambda>f. Severity f = ErrorSeverity) (fst (Check S E D t))"
  using assms by (simp add: Check_cases Build_def)

theorem Check_valid_iff_no_error_witness:
  "fst (oneDescriptor ''peerauthentication.mtls.destinationrulemissing'') = ErrorSeverity
   \<and> snd (Check PeerAuthnHasStrictMTLS DestinationRuleHasMeshWideMTLSEnabled oneDescriptor
           (checkerOn meshStrictPolicy [meshWidePlainRule])) = False
   \<and> list_ex (\<lambda>f. Severity f = ErrorSeverity)
        (fst (Check PeerAuthnHasStrictMTLS DestinationRuleHasMeshWideMTLSEnabled oneDescriptor
                (checkerOn meshStrictPolicy [meshWidePlainRule])))"
proof -
  have h: "fst (oneDescriptor ''peerauthentication.mtls.destinationrulemissing'') = ErrorSeverity"
    by (simp add: oneDescriptor_def)
  have v: "snd (Check PeerAuthnHasStrictMTLS DestinationRuleHasMeshWideMTLSEnabled oneDescriptor
                  (checkerOn meshStrictPolicy [meshWidePlainRule])) = False"
    by (simp add: Check_cases example_defs)
  show ?thesis
    using h v
      Check_valid_iff_no_error [where D = oneDescriptor and S = PeerAuthnHasStrictMTLS
        and E = DestinationRuleHasMeshWideMTLSEnabled
        and t = "checkerOn meshStrictPolicy [meshWidePlainRule]"]
    by simp
qed

text \<open>
  C6: take two invocations of \<open>Check\<close>, each with the helpers and the descriptor table
  as they answer during that invocation. If the two inputs have the same \<open>MeshPolicy\<close>
  and the same \<open>MTLSDetails\<close>, and the helpers of the two invocations give the same
  answer for that policy, for each destination rule of the input and for the check id of
  the missing destination rule, then the two finding lists have the same length and agree
  at every position, and the validity flags are equal. Nothing else has a part in the
  result: not \<open>IsServiceMesh\<close>, not what the helpers answer for other objects, not the
  second value of the rule helper.
\<close>

theorem Check_deterministic:
  assumes "MeshPolicy t1 = MeshPolicy t2"
    and "MTLSDetails t1 = MTLSDetails t2"
    and "S1 (MeshPolicy t1) = S2 (MeshPolicy t2)"
    and "list_all (\<lambda>dr. fst (E1 dr) = fst (E2 dr)) (DestinationRules (MTLSDetails t1))"
    and "D1 ''peerauthentication.mtls.destinationrulemissing''
           = D2 ''peerauthentication.mtls.destinationrulemissing''"
  shows "length (fst (Check S1 E1 D1 t1)) = length (fst (Check S2 E2 D2 t2))
         \<and> (\<forall>i < length (fst (Check S1 E1 D1 t1)).
               fst (Check S1 E1 D1 t1) ! i = fst (Check S2 E2 D2 t2) ! i)
         \<and> snd (Check S1 E1 D1 t1) = snd (Check S2 E2 D2 t2)"
proof -
  from assms(2,4)
  have rules: "(\<forall>dr \<in> set (DestinationRules (MTLSDetails t1)). \<not> fst (E1 dr))
               = (\<forall>dr \<in> set (DestinationRules (MTLSDetails t2)). \<not> fst (E2 dr))"
    by (simp add: list_all_iff)
  from assms(1,3) have policy: "S1 (MeshPolicy t1) = S2 (MeshPolicy t2)"
    by simp
  from assms(5)
  have finding: "Build D1 ''peerauthentication.mtls.destinationrulemissing'' ''spec/mtls''
                 = Build D2 ''peerauthentication.mtls.destinationrulemissing'' ''spec/mtls''"
    by (simp add: Build_def)
  have "Check S1 E1 D1 t1 = Check S2 E2 D2 t2"
    unfolding Check_cases [of S1 E1 D1 t1] Check_cases [of S2 E2 D2 t2]
    using rules policy finding by simp
  then show ?thesis
    by simp
qed

theorem Check_deterministic_witness:
  "MeshPolicy (checkerOn meshStrictPolicy [meshWidePlainRule])
     = MeshPolicy ((checkerOn meshStrictPolicy [meshWidePlainRule])\<lparr>IsServiceMesh := True\<rparr>)
   \<and> checkerOn meshStrictPolicy [meshWidePlainRule]
       \<noteq> (checkerOn meshStrictPolicy [meshWidePlainRule])\<lparr>IsServiceMesh := True\<rparr>
   \<and> PeerAuthnHasStrictMTLS meshModelessPolicy \<noteq> otherStrictMTLS (meshModelessPolicy\<lparr>name := ''x''\<rparr>)
   \<and> oneDescriptor ''x'' \<noteq> otherDescriptor ''x''
   \<and> length (fst (Check PeerAuthnHasStrictMTLS DestinationRuleHasMeshWideMTLSEnabled oneDescriptor
                (checkerOn meshStrictPolicy [meshWidePlainRule]))) = 1
   \<and> length (fst (Check otherStrictMTLS otherMeshWideMTLSEnabled otherDescriptor
                ((checkerOn meshStrictPolicy [meshWidePlainRule])\<lparr>IsServiceMesh := True\<rparr>))) = 1
   \<and> fst (Check PeerAuthnHasStrictMTLS DestinationRuleHasMeshWideMTLSEnabled oneDescriptor
            (checkerOn meshStrictPolicy [meshWidePlainRule])) ! 0
       = fst (Check otherStrictMTLS otherMeshWideMTLSEnabled otherDescriptor
                ((checkerOn meshStrictPolicy [meshWidePlainRule])\<lparr>IsServiceMesh := True\<rparr>)) ! 0
   \<and> snd (Check PeerAuthnHasStrictMTLS DestinationRuleHasMeshWideMTLSEnabled oneDescriptor
            (checkerOn meshStrictPolicy [meshWidePlainRule]))
       = snd (Check otherStrictMTLS otherMeshWideMTLSEnabled otherDescriptor
                ((checkerOn meshStrictPolicy [meshWidePlainRule])\<lparr>IsServiceMesh := True\<rparr>))"
proof -
  let ?t1 = "checkerOn meshStrictPolicy [meshWidePlainRule]"
  let ?t2 = "(checkerOn meshStrictPolicy [meshWidePlainRule])\<lparr>IsServiceMesh := True\<rparr>"
  have p: "MeshPolicy ?t1 = MeshPolicy ?t2"
    by simp
  have m: "MTLSDetails ?t1 = MTLSDetails ?t2"
    by simp
  have s: "PeerAuthnHasStrictMTLS (MeshPolicy ?t1) = otherStrictMTLS (MeshPolicy ?t2)"
    by (simp add: example_defs otherStrictMTLS_def)
  have e: "list_all (\<lambda>dr. fst (DestinationRuleHasMeshWideMTLSEnabled dr)
                            = fst (otherMeshWideMTLSEnabled dr))
             (DestinationRules (MTLSDetails ?t1))"
    by (simp add: example_defs otherMeshWideMTLSEnabled_def)
  have d: "oneDescriptor ''peerauthentication.mtls.destinationrulemissing''
             = otherDescriptor ''peerauthentication.mtls.destinationrulemissing''"
    by (simp add: otherDescriptor_def)
  have differ: "?t1 \<noteq> ?t2"
    "PeerAuthnHasStrictMTLS meshModelessPolicy \<noteq> otherStrictMTLS (meshModelessPolicy\<lparr>name := ''x''\<rparr>)"
    "oneDescriptor ''x'' \<noteq> otherDescriptor ''x''"
    by (simp_all add: example_defs otherStrictMTLS_def otherDescriptor_def)
  have l: "length (fst (Check PeerAuthnHasStrictMTLS DestinationRuleHasMeshWideMTLSEnabled
                     oneDescriptor ?t1)) = 1"
    by (simp add: Check_cases example_defs)
  note r = Check_deterministic [where ?S1.0 = PeerAuthnHasStrictMTLS
      and ?E1.0 = DestinationRuleHasMeshWideMTLSEnabled and ?D1.0 = oneDescriptor
      and ?S2.0 = otherStrictMTLS and ?E2.0 = otherMeshWideMTLSEnabled
      and ?D2.0 = otherDescriptor and ?t1.0 = ?t1 and ?t2.0 = ?t2, OF p m s e d]
  note len = r [THEN conjunct1]
  note nth = r [THEN conjunct2, THEN conjunct1, rule_format]
  note flag = r [THEN conjunct2, THEN conjunct2]
  have l2: "length (fst (Check otherStrictMTLS otherMeshWideMTLSEnabled otherDescriptor ?t2)) = 1"
    by (rule trans [OF len [symmetric] l])
  have pos: "0 < length (fst (Check PeerAuthnHasStrictMTLS DestinationRuleHasMeshWideMTLSEnabled
                            oneDescriptor ?t1))"
    unfolding l by (rule zero_less_one)
  note nth0 = nth [OF pos]
  show ?thesis
    by (intro conjI) (rule p differ l l2 nth0 flag)+
qed

text \<open>
  C7: \<open>Check\<close> has a result on every input, and it is one of two: no finding and true,
  or the single finding for the missing destination rule and false, the second exactly
  when the policy is Strict and no destination rule enables mesh-wide mTLS. A mesh policy
  that declares no mode (the field is missing, or the object is not a peer authentication
  policy) is not Strict, and gets no finding and true.
\<close>

theorem Check_total_malformed_not_strict:
  "(Check PeerAuthnHasStrictMTLS DestinationRuleHasMeshWideMTLSEnabled D t = ([], True)
    \<or> Check PeerAuthnHasStrictMTLS DestinationRuleHasMeshWideMTLSEnabled D t
        = ([Build D ''peerauthentication.mtls.destinationrulemissing'' ''spec/mtls''], False))
   \<and> (Check PeerAuthnHasStrictMTLS DestinationRuleHasMeshWideMTLSEnabled D t \<noteq> ([], True))
       = (PeerAuthnHasStrictMTLS (MeshPolicy t)
          \<and> list_all (\<lambda>dr. \<not> fst (DestinationRuleHasMeshWideMTLSEnabled dr))
               (DestinationRules (MTLSDetails t)))
   \<and> (\<not> declaresMode (spec (MeshPolicy t)) \<longrightarrow>
         declaredMode (spec (MeshPolicy t)) = Unset
         \<and> \<not> PeerAuthnHasStrictMTLS (MeshPolicy t)
         \<and> Check PeerAuthnHasStrictMTLS DestinationRuleHasMeshWideMTLSEnabled D t = ([], True))"
proof -
  have "declaredMode c = Unset" if "\<not> declaresMode c" for c
    using that by (cases c rule: declaresMode.cases) simp_all
  then show ?thesis
    by (auto simp: Check_cases PeerAuthnHasStrictMTLS_def list_all_iff)
qed

theorem Check_total_malformed_not_strict_witness:
  "\<not> declaresMode (spec (MeshPolicy (checkerOn meshModelessPolicy [meshWidePlainRule])))
   \<and> declaredMode (spec (MeshPolicy (checkerOn meshModelessPolicy [meshWidePlainRule]))) = Unset
   \<and> \<not> PeerAuthnHasStrictMTLS (MeshPolicy (checkerOn meshModelessPolicy [meshWidePlainRule]))
   \<and> Check PeerAuthnHasStrictMTLS DestinationRuleHasMeshWideMTLSEnabled oneDescriptor
       (checkerOn meshModelessPolicy [meshWidePlainRule]) = ([], True)"
proof -
  have h: "\<not> declaresMode (spec (MeshPolicy (checkerOn meshModelessPolicy [meshWidePlainRule])))"
    by (simp add: example_defs)
  show ?thesis
    using h
      Check_total_malformed_not_strict [where D = oneDescriptor
        and t = "checkerOn meshModelessPolicy [meshWidePlainRule]"]
    by blast
qed

section \<open>Properties of the dashboards service\<close>

lemmas service_defs =
  exampleModels_def exampleService_def exampleQuery_def exampleTemplate_def
  exampleConfig_def failingMonitor_def istioOnlyMonitor_def

text \<open>
  C9: \<open>GetDashboard\<close> looks the template up in the namespace of the query; if that
  lookup fails it looks it up once more, in the Istio namespace of the configuration, in
  the state the first lookup left the client in. It returns a nil dashboard with an error
  exactly when both lookups fail, the error being that of the second lookup; in every
  other case it returns the dashboard filled from the template found and a nil error. A
  dashboard is returned exactly when the error is nil.
\<close>

theorem GetDashboard_fallback:
  assumes "mon_GetDashboard (mon svc) ms (Namespace params) template = (r1, ms1)"
    and "mon_GetDashboard (mon svc) ms1 (IstioNamespace cfg) template = (r2, ms2)"
  shows "(case r1 of
            Inr d1 \<Rightarrow> GetDashboard models cfg svc ms params template
                        = (fillDashboard models svc params d1, ms1)
          | Inl e1 \<Rightarrow>
              (case r2 of
                 Inr d2 \<Rightarrow> GetDashboard models cfg svc ms params template
                             = (fillDashboard models svc params d2, ms2)
               | Inl e2 \<Rightarrow> GetDashboard models cfg svc ms params template
                             = ((None, Some e2), ms2)))
         \<and> (\<exists>e. fst (GetDashboard models cfg svc ms params template) = (None, Some e))
             = (isl r1 \<and> isl r2)
         \<and> (fst (fst (GetDashboard models cfg svc ms params template)) = None)
             = (snd (fst (GetDashboard models cfg svc ms params template)) \<noteq> None)"
  using assms
  by (cases r1; cases r2) (simp_all add: GetDashboard_def fillDashboard_def Let_def)

theorem GetDashboard_fallback_witness:
  "GetDashboard exampleModels exampleConfig (exampleService istioOnlyMonitor) []
      exampleQuery ''jvm''
     = (fillDashboard exampleModels (exampleService istioOnlyMonitor) exampleQuery
          exampleTemplate,
        [(''bookinfo'', ''jvm''), (''istio-system'', ''jvm'')])
   \<and> GetDashboard exampleModels exampleConfig (exampleService failingMonitor) []
        exampleQuery ''jvm''
       = ((None, Some ''no dashboard in istio-system''),
          [(''bookinfo'', ''jvm''), (''istio-system'', ''jvm'')])"
proof -
  have a1: "mon_GetDashboard (mon (exampleService istioOnlyMonitor)) []
              (Namespace exampleQuery) ''jvm''
            = (Inl ''no dashboard in bookinfo'', [(''bookinfo'', ''jvm'')])"
    by (simp add: service_defs)
  have a2: "mon_GetDashboard (mon (exampleService istioOnlyMonitor)) [(''bookinfo'', ''jvm'')]
              (IstioNamespace exampleConfig) ''jvm''
            = (Inr exampleTemplate, [(''bookinfo'', ''jvm''), (''istio-system'', ''jvm'')])"
    by (simp add: service_defs)
  have b1: "mon_GetDashboard (mon (exampleService failingMonitor)) []
              (Namespace exampleQuery) ''jvm''
            = (Inl ''no dashboard in bookinfo'', [(''bookinfo'', ''jvm'')])"
    by (simp add: service_defs)
  have b2: "mon_GetDashboard (mon (exampleService failingMonitor)) [(''bookinfo'', ''jvm'')]
              (IstioNamespace exampleConfig) ''jvm''
            = (Inl ''no dashboard in istio-system'',
               [(''bookinfo'', ''jvm''), (''istio-system'', ''jvm'')])"
    by (simp add: service_defs)
  show ?thesis
    using GetDashboard_fallback [OF a1 a2, of exampleModels]
      GetDashboard_fallback [OF b1 b2, of exampleModels]
    by simp
qed

lemma rangeIstioCharts_append:
  "rangeIstioCharts metrics dashboard cs
     = dashboard\<lparr>Charts := Charts dashboard @ map (newChart metrics) cs\<rparr>"
  by (induction cs arbitrary: dashboard) simp_all

lemma newChart_fixed:
  "Name (newChart metrics chartTpl) = Name (Chart chartTpl)"
  "Unit (newChart metrics chartTpl) = Unit (Chart chartTpl)"
  "Spans (newChart metrics chartTpl) = Spans (Chart chartTpl)"
  by (simp_all add: newChart_def Let_def split: option.splits)

text \<open>
  \<open>GetIstioDashboard\<close> returns a dashboard and a nil error for every query. The charts
  of that dashboard are the charts of the dashboard that \<open>models.PrepareIstioDashboard\<close>
  prepared, followed by six charts, one for each entry of \<open>istioCharts\<close> in its order,
  with the names, units and spans written there, whatever the metrics hold. Whether the
  prepared dashboard comes with charts of its own is decided by
  \<open>models.PrepareIstioDashboard\<close>, whose code is not among the sources; when it has
  none, the charts are exactly those six.
\<close>

lemma GetIstioDashboard_six_charts:
  "\<exists>d. GetIstioDashboard models svc params = (Some d, None)
       \<and> Charts d = Charts (copyDashboard models params)
                      @ map (newChart (GetMetrics (prom svc) params)) istioCharts
       \<and> map (\<lambda>c. (Name c, Unit c, Spans c))
            (map (newChart (GetMetrics (prom svc) params)) istioCharts)
           = [(''Request volume'', ''ops'', 12), (''Request duration'', ''s'', 12),
              (''Request size'', ''B'', 12), (''Response size'', ''B'', 12),
              (''TCP received'', ''bps'', 12), (''TCP sent'', ''bps'', 12)]
       \<and> (Charts (copyDashboard models params) = [] \<longrightarrow>
            map Name (Charts d)
              = [''Request volume'', ''Request duration'', ''Request size'', ''Response size'',
                 ''TCP received'', ''TCP sent''])"
  by (simp add: GetIstioDashboard_def rangeIstioCharts_append newChart_fixed istioCharts_def
      Let_def)

lemma GetIstioDashboard_six_charts_witness:
  "Charts (copyDashboard exampleModels \<lparr>Direction = ''inbound''\<rparr>) = []
   \<and> (\<exists>d. GetIstioDashboard exampleModels (exampleService failingMonitor)
              \<lparr>Direction = ''inbound''\<rparr> = (Some d, None :: string option)
          \<and> map Name (Charts d)
              = [''Request volume'', ''Request duration'', ''Request size'', ''Response size'',
                 ''TCP received'', ''TCP sent''])"
proof -
  have h: "Charts (copyDashboard exampleModels \<lparr>Direction = ''inbound''\<rparr>) = []"
    by (simp add: copyDashboard_def exampleModels_def)
  show ?thesis
    using h
      GetIstioDashboard_six_charts [where models = exampleModels
        and svc = "exampleService failingMonitor"
        and params = "\<lparr>Direction = ''inbound''\<rparr>"]
    by (elim exE conjE impE) (assumption, intro conjI exI, assumption+)
qed

section \<open>The barrier of the fan-out\<close>

lemma filter_update_length:
  "i < length xs \<Longrightarrow>
   length (filter P (xs[i := y])) + (if P (xs ! i) then 1 else 0)
     = length (filter P xs) + (if P y then 1 else 0)"
proof -
  assume i: "i < length xs"
  let ?l = "take i xs" and ?r = "drop (Suc i) xs"
  have upd: "xs[i := y] = ?l @ y # ?r"
    using i by (rule upd_conv_take_nth_drop)
  have "xs = ?l @ xs ! i # ?r"
    using i by (rule id_take_nth_drop)
  then have "length (filter P xs) = length (filter P (?l @ xs ! i # ?r))"
    by simp
  then show ?thesis
    by (simp add: upd)
qed

lemma fanoutInv_start: "fanoutInv models svc params dashboard (startFanout dashboard)"
  by (simp add: fanoutInv_def startFanout_def Let_def)

lemma fanoutInv_callerStep:
  assumes "fanoutInv models svc params dashboard s"
    and "callerStep models dashboard s = Some s'"
  shows "fanoutInv models svc params dashboard s'"
proof (cases "caller s")
  case (Spawning k)
  show ?thesis
  proof (cases "k < length (Spec_Charts (Spec dashboard))")
    case True
    with assms Spawning have ns: "goroutines s ! k = NotStarted"
      and len: "k < length (goroutines s)"
      by (auto simp: fanoutInv_def Let_def)
    from filter_update_length [OF len, of "\<lambda>g. g \<noteq> Finished" AtConvert] ns
    have cnt: "length (filter (\<lambda>g. g \<noteq> Finished) ((goroutines s)[k := AtConvert]))
                = length (filter (\<lambda>g. g \<noteq> Finished) (goroutines s))"
      by simp
    from assms Spawning True have s': "s' = s\<lparr>goroutines := (goroutines s)[k := AtConvert],
                                              caller := Spawning (Suc k)\<rparr>"
      by (simp add: callerStep_def)
    show ?thesis
      using assms(1) Spawning True cnt ns unfolding s'
      by (auto simp: fanoutInv_def Let_def nth_list_update)
  next
    case False
    with assms Spawning show ?thesis
      by (auto simp: callerStep_def fanoutInv_def Let_def)
  qed
next
  case Waiting
  show ?thesis
  proof (cases "wg s = 0")
    case True
    with assms(1) have "filter (\<lambda>g. g \<noteq> Finished) (goroutines s) = []"
      by (simp add: fanoutInv_def Let_def)
    then have allfin: "\<forall>g \<in> set (goroutines s). g = Finished"
      by (simp add: filter_empty_conv)
    have fin: "goroutines s ! i = Finished" if "i < length (goroutines s)" for i
      using allfin that by (metis nth_mem)
    have "filledCharts s =
            map (fillChart models svc (queryLabels params) (Join (ByLabels params) '','') params)
              (Spec_Charts (Spec dashboard))"
      using assms(1) fin by (intro nth_equalityI) (auto simp: fanoutInv_def Let_def)
    with assms Waiting True fin show ?thesis
      by (auto simp: callerStep_def fanoutInv_def Let_def)
  next
    case False
    with assms Waiting show ?thesis by (simp add: callerStep_def)
  qed
next
  case (Returned d)
  with assms show ?thesis by (simp add: callerStep_def)
qed


lemma fanoutInv_goroutineStep:
  assumes inv: "fanoutInv models svc params dashboard s"
    and step: "goroutineStep models svc params dashboard idx s = Some s'"
  shows "fanoutInv models svc params dashboard s'"
proof -
  let ?charts = "Spec_Charts (Spec dashboard)"
  from step have idx: "idx < length (goroutines s)" "idx < length ?charts"
    by (auto simp: goroutineStep_def Let_def split: if_splits)
  from inv have len: "length (goroutines s) = length ?charts"
    "length (filledCharts s) = length ?charts"
    by (simp_all add: fanoutInv_def Let_def)
  have started: "caller s \<noteq> Returned d" if "goroutines s ! idx \<noteq> Finished" for d
    using inv idx that by (auto simp: fanoutInv_def Let_def)
  have spawned: "k \<le> idx \<Longrightarrow> caller s \<noteq> Spawning k" if "goroutines s ! idx \<noteq> NotStarted" for k
    using inv idx that by (auto simp: fanoutInv_def Let_def)
  show ?thesis
  proof (cases "goroutines s ! idx")
    case NotStarted
    with step idx show ?thesis by (simp add: goroutineStep_def Let_def)
  next
    case AtConvert
    from filter_update_length [OF idx(1), of "\<lambda>g. g \<noteq> Finished" AtFetch] AtConvert
    have cnt: "length (filter (\<lambda>g. g \<noteq> Finished) ((goroutines s)[idx := AtFetch]))
                = length (filter (\<lambda>g. g \<noteq> Finished) (goroutines s))"
      by simp
    from step idx AtConvert
    have s': "s' = s\<lparr>filledCharts := (filledCharts s)[idx := ConvertChart models (?charts ! idx)],
                      goroutines := (goroutines s)[idx := AtFetch]\<rparr>"
      by (simp add: goroutineStep_def Let_def)
    show ?thesis
      using inv idx len cnt AtConvert started spawned unfolding s'
      by (cases "caller s") (auto simp: fanoutInv_def Let_def nth_list_update)
  next
    case AtFetch
    from filter_update_length [OF idx(1), of "\<lambda>g. g \<noteq> Finished" AtDone] AtFetch
    have cnt: "length (filter (\<lambda>g. g \<noteq> Finished) ((goroutines s)[idx := AtDone]))
                = length (filter (\<lambda>g. g \<noteq> Finished) (goroutines s))"
      by simp
    from inv idx AtFetch have conv: "filledCharts s ! idx = ConvertChart models (?charts ! idx)"
      by (simp add: fanoutInv_def Let_def)
    from step idx AtFetch
    have s': "s' = s\<lparr>filledCharts := (filledCharts s)
                        [idx := fillChart models svc (queryLabels params)
                                  (Join (ByLabels params) '','') params (?charts ! idx)],
                      goroutines := (goroutines s)[idx := AtDone]\<rparr>"
      by (simp add: goroutineStep_def Let_def conv fillChart_def)
    show ?thesis
      using inv idx len cnt AtFetch started spawned unfolding s'
      by (cases "caller s") (auto simp: fanoutInv_def Let_def nth_list_update)
  next
    case AtDone
    from filter_update_length [OF idx(1), of "\<lambda>g. g \<noteq> Finished" Finished] AtDone
    have cnt: "int (length (filter (\<lambda>g. g \<noteq> Finished) ((goroutines s)[idx := Finished])))
                = int (length (filter (\<lambda>g. g \<noteq> Finished) (goroutines s))) - 1"
      by simp
    from step idx AtDone
    have s': "s' = s\<lparr>wg := wg s - 1, goroutines := (goroutines s)[idx := Finished]\<rparr>"
      by (simp add: goroutineStep_def Let_def)
    show ?thesis
      using inv idx len cnt AtDone started spawned unfolding s'
      by (cases "caller s") (auto simp: fanoutInv_def Let_def nth_list_update)
  next
    case Finished
    with step idx show ?thesis by (simp add: goroutineStep_def Let_def)
  qed
qed

lemma fanoutInv_run:
  "fanoutInv models svc params dashboard s \<Longrightarrow>
   runFanout models svc params dashboard schedule s = Some s' \<Longrightarrow>
   fanoutInv models svc params dashboard s'"
proof (induction schedule arbitrary: s)
  case Nil
  then show ?case by simp
next
  case (Cons t schedule)
  from Cons.prems(2) obtain s1 where
    s1: "fanoutStep models svc params dashboard t s = Some s1"
    and rest: "runFanout models svc params dashboard schedule s1 = Some s'"
    by (auto split: option.splits)
  from s1 Cons.prems(1) have "fanoutInv models svc params dashboard s1"
    by (cases t) (auto intro: fanoutInv_callerStep fanoutInv_goroutineStep)
  with rest show ?case by (rule Cons.IH [rotated])
qed

text \<open>
  C8: under every schedule of the calling thread and the goroutines, once the calling
  thread has returned its dashboard there is one goroutine for each chart of the template
  and every one of them has finished, the counter of the wait group is zero, the charts
  returned are the array \<open>filledCharts\<close> with every element filled (the dashboard is the
  one \<open>fillDashboard\<close> computes), and no thread moves any more: nothing is returned
  before the last goroutine is done and nothing is written after the return.
\<close>

theorem fanout_barrier:
  assumes "runFanout models svc params dashboard schedule (startFanout dashboard) = Some s"
    and "caller s = Returned d"
  shows "length (goroutines s) = length (Spec_Charts (Spec dashboard))
         \<and> list_all (\<lambda>g. g = Finished) (goroutines s)
         \<and> wg s = 0
         \<and> Charts d = filledCharts s
         \<and> fillDashboard models svc params dashboard = (Some d, None)
         \<and> (\<forall>t. fanoutStep models svc params dashboard t s = None)"
proof -
  let ?charts = "Spec_Charts (Spec dashboard)"
  let ?fill = "fillChart models svc (queryLabels params) (Join (ByLabels params) '','') params"
  have inv: "fanoutInv models svc params dashboard s"
    using fanoutInv_start assms(1) by (rule fanoutInv_run)
  from inv have len: "length (goroutines s) = length ?charts"
    "length (filledCharts s) = length ?charts"
    by (simp_all add: fanoutInv_def Let_def)
  from inv assms(2) have fin: "\<forall>i < length ?charts. goroutines s ! i = Finished"
    and d: "d = \<lparr>Title = Spec_Title (Spec dashboard), Charts = map ?fill ?charts,
                 Aggregations = ConvertAggregations models (Spec dashboard)\<rparr>"
    by (simp_all add: fanoutInv_def Let_def)
  from fin len have allfin: "list_all (\<lambda>g. g = Finished) (goroutines s)"
    by (simp add: list_all_length)
  then have "filter (\<lambda>g. g \<noteq> Finished) (goroutines s) = []"
    by (simp add: filter_empty_conv list_all_iff)
  with inv have wg0: "wg s = 0"
    by (simp add: fanoutInv_def Let_def)
  have filled: "filledCharts s = map ?fill ?charts"
    using inv fin len by (intro nth_equalityI) (auto simp: fanoutInv_def Let_def)
  have stuck: "fanoutStep models svc params dashboard t s = None" for t
  proof (cases t)
    case Caller
    with assms(2) show ?thesis by (simp add: callerStep_def)
  next
    case (Goroutine idx)
    with fin len show ?thesis by (simp add: goroutineStep_def Let_def)
  qed
  from len allfin wg0 filled d stuck show ?thesis
    by (simp add: fillDashboard_def Let_def)
qed

theorem fanout_barrier_witness:
  "\<exists>s d. runFanout exampleModels (exampleService failingMonitor) exampleQuery exampleTemplate
            [Caller, Goroutine 0, Caller, Caller, Goroutine 1, Goroutine 1, Goroutine 0,
             Goroutine 1, Goroutine 0, Caller]
            (startFanout exampleTemplate) = Some s
         \<and> caller s = Returned d
         \<and> list_all (\<lambda>g. g = Finished) (goroutines s)
         \<and> length (goroutines s) = 2
         \<and> fillDashboard exampleModels (exampleService failingMonitor) exampleQuery exampleTemplate
             = (Some d, None :: string option)"
proof -
  let ?run = "runFanout exampleModels (exampleService failingMonitor) exampleQuery exampleTemplate
            [Caller, Goroutine 0, Caller, Caller, Goroutine 1, Goroutine 1, Goroutine 0,
             Goroutine 1, Goroutine 0, Caller]
            (startFanout exampleTemplate)"
  have "\<exists>s d. ?run = Some s \<and> caller s = Returned d"
    by (simp add: startFanout_def callerStep_def goroutineStep_def exampleTemplate_def Let_def)
  then obtain s d where run: "?run = Some s" and ret: "caller s = Returned d"
    by blast
  have n: "length (Spec_Charts (Spec exampleTemplate)) = 2"
    by (simp add: exampleTemplate_def)
  from fanout_barrier [OF run ret] n run ret show ?thesis
    by auto
qed

subsection \<open>The fan-out comes to its end\<close>

text \<open>
  Every step takes the fan-out one step closer to the return of the calling thread, and
  as long as the calling thread has not returned some thread can move. So the calling
  thread returns under every scheduling, after four steps for each chart and two more.
\<close>

lemma remaining_update:
  "i < length gs \<Longrightarrow>
   sum_list (map remaining (gs[i := g])) + remaining (gs ! i)
     = sum_list (map remaining gs) + remaining g"
proof -
  assume i: "i < length gs"
  let ?l = "take i gs" and ?r = "drop (Suc i) gs"
  have upd: "gs[i := g] = ?l @ g # ?r"
    using i by (rule upd_conv_take_nth_drop)
  have "gs = ?l @ gs ! i # ?r"
    using i by (rule id_take_nth_drop)
  then have "sum_list (map remaining gs) = sum_list (map remaining (?l @ gs ! i # ?r))"
    by simp
  then show ?thesis
    by (simp add: upd)
qed

lemma stepsLeft_callerStep:
  assumes "fanoutInv models svc params dashboard s"
    and "callerStep models dashboard s = Some s'"
  shows "Suc (stepsLeft dashboard s') = stepsLeft dashboard s"
proof (cases "caller s")
  case (Spawning k)
  show ?thesis
  proof (cases "k < length (Spec_Charts (Spec dashboard))")
    case True
    with assms(1) Spawning have ns: "goroutines s ! k = NotStarted"
      and len: "k < length (goroutines s)"
      by (auto simp: fanoutInv_def Let_def)
    from remaining_update [OF len, of AtConvert] ns
    have "sum_list (map remaining ((goroutines s)[k := AtConvert]))
            = sum_list (map remaining (goroutines s))"
      by simp
    with assms(2) Spawning True show ?thesis
      by (auto simp: callerStep_def stepsLeft_def)
  next
    case False
    with assms Spawning show ?thesis
      by (auto simp: callerStep_def stepsLeft_def fanoutInv_def Let_def)
  qed
next
  case Waiting
  with assms(2) show ?thesis
    by (auto simp: callerStep_def stepsLeft_def split: if_splits)
next
  case (Returned d)
  with assms(2) show ?thesis by (simp add: callerStep_def)
qed

lemma stepsLeft_goroutineStep:
  assumes "goroutineStep models svc params dashboard idx s = Some s'"
  shows "Suc (stepsLeft dashboard s') = stepsLeft dashboard s"
proof -
  from assms have idx: "idx < length (goroutines s)"
    by (auto simp: goroutineStep_def Let_def split: if_splits)
  note upd = remaining_update [OF idx]
  show ?thesis
  proof (cases "goroutines s ! idx")
    case AtConvert
    with assms idx upd [of AtFetch] show ?thesis
      by (auto simp: goroutineStep_def Let_def stepsLeft_def split: if_splits)
  next
    case AtFetch
    with assms idx upd [of AtDone] show ?thesis
      by (auto simp: goroutineStep_def Let_def stepsLeft_def split: if_splits)
  next
    case AtDone
    with assms idx upd [of Finished] show ?thesis
      by (auto simp: goroutineStep_def Let_def stepsLeft_def split: if_splits)
  next
    case NotStarted
    with assms idx show ?thesis
      by (auto simp: goroutineStep_def Let_def split: if_splits)
  next
    case Finished
    with assms idx show ?thesis
      by (auto simp: goroutineStep_def Let_def split: if_splits)
  qed
qed

lemma stepsLeft_fanoutStep:
  "fanoutInv models svc params dashboard s \<Longrightarrow>
   fanoutStep models svc params dashboard t s = Some s' \<Longrightarrow>
   Suc (stepsLeft dashboard s') = stepsLeft dashboard s"
  by (cases t) (auto intro: stepsLeft_callerStep stepsLeft_goroutineStep)

lemma fanoutInv_fanoutStep:
  "fanoutInv models svc params dashboard s \<Longrightarrow>
   fanoutStep models svc params dashboard t s = Some s' \<Longrightarrow>
   fanoutInv models svc params dashboard s'"
  by (cases t) (auto intro: fanoutInv_callerStep fanoutInv_goroutineStep)

lemma stepsLeft_0_Returned:
  assumes "stepsLeft dashboard s = 0"
  shows "\<exists>d. caller s = Returned d"
  using assms by (cases "caller s") (simp_all add: stepsLeft_def)

lemma fanout_progress:
  assumes inv: "fanoutInv models svc params dashboard s"
    and left: "stepsLeft dashboard s \<noteq> 0"
  shows "\<exists>t s'. fanoutStep models svc params dashboard t s = Some s'"
proof (cases "caller s")
  case (Spawning k)
  then have "callerStep models dashboard s \<noteq> None"
    by (simp add: callerStep_def)
  then show ?thesis
    by (metis fanoutStep.simps(1) not_Some_eq)
next
  case Waiting
  show ?thesis
  proof (cases "wg s = 0")
    case True
    with Waiting have "callerStep models dashboard s \<noteq> None"
      by (simp add: callerStep_def)
    then show ?thesis
      by (metis fanoutStep.simps(1) not_Some_eq)
  next
    case False
    with inv have "filter (\<lambda>g. g \<noteq> Finished) (goroutines s) \<noteq> []"
      by (auto simp: fanoutInv_def Let_def)
    then obtain g where "g \<in> set (goroutines s)" "g \<noteq> Finished"
      by (auto simp: filter_empty_conv)
    then obtain idx where idx: "idx < length (goroutines s)" "goroutines s ! idx \<noteq> Finished"
      by (auto simp: in_set_conv_nth)
    with inv Waiting have started: "goroutines s ! idx \<noteq> NotStarted"
      and chart: "idx < length (Spec_Charts (Spec dashboard))"
      by (auto simp: fanoutInv_def Let_def)
    with idx have "goroutineStep models svc params dashboard idx s \<noteq> None"
      by (cases "goroutines s ! idx") (simp_all add: goroutineStep_def Let_def)
    then show ?thesis
      by (metis fanoutStep.simps(2) not_Some_eq)
  qed
next
  case (Returned d)
  with inv have "\<forall>i < length (goroutines s). goroutines s ! i = Finished"
    by (simp add: fanoutInv_def Let_def)
  then have "\<forall>g \<in> set (goroutines s). remaining g = 0"
    by (auto simp: in_set_conv_nth)
  then have "sum_list (map remaining (goroutines s)) = 0"
    by simp
  with Returned left show ?thesis
    by (simp add: stepsLeft_def)
qed

lemma fanout_completes:
  "fanoutInv models svc params dashboard s \<Longrightarrow> stepsLeft dashboard s = n \<Longrightarrow>
   \<exists>schedule s' d. runFanout models svc params dashboard schedule s = Some s'
                   \<and> caller s' = Returned d \<and> length schedule = n"
proof (induction n arbitrary: s)
  case 0
  then obtain d where "caller s = Returned d"
    using stepsLeft_0_Returned by blast
  then have "runFanout models svc params dashboard [] s = Some s \<and> caller s = Returned d
             \<and> length ([] :: thread list) = 0"
    by simp
  then show ?case by blast
next
  case (Suc n)
  then obtain t s1 where step: "fanoutStep models svc params dashboard t s = Some s1"
    using fanout_progress [of models svc params dashboard s] by auto
  with Suc.prems have inv1: "fanoutInv models svc params dashboard s1"
    and left1: "stepsLeft dashboard s1 = n"
    using fanoutInv_fanoutStep [of models svc params dashboard s t s1]
      stepsLeft_fanoutStep [of models svc params dashboard s t s1]
    by auto
  from Suc.IH [OF inv1 left1] obtain schedule s' d where
    "runFanout models svc params dashboard schedule s1 = Some s'"
    "caller s' = Returned d" "length schedule = n"
    by blast
  with step have "runFanout models svc params dashboard (t # schedule) s = Some s'
                  \<and> caller s' = Returned d \<and> length (t # schedule) = Suc n"
    by simp
  then show ?case by blast
qed

lemma stepsLeft_run:
  "fanoutInv models svc params dashboard s \<Longrightarrow>
   runFanout models svc params dashboard schedule s = Some s' \<Longrightarrow>
   length schedule + stepsLeft dashboard s' = stepsLeft dashboard s"
proof (induction schedule arbitrary: s)
  case Nil
  then show ?case by simp
next
  case (Cons t schedule)
  from Cons.prems(2) obtain s1 where
    s1: "fanoutStep models svc params dashboard t s = Some s1"
    and rest: "runFanout models svc params dashboard schedule s1 = Some s'"
    by (auto split: option.splits)
  from Cons.IH [OF fanoutInv_fanoutStep [OF Cons.prems(1) s1] rest]
    stepsLeft_fanoutStep [OF Cons.prems(1) s1]
  show ?case by simp
qed

lemma stepsLeft_start:
  "stepsLeft dashboard (startFanout dashboard :: ('m, 'h, 'a) fanout)
     = 4 * length (Spec_Charts (Spec dashboard)) + 2"
  by (simp add: stepsLeft_def startFanout_def Let_def sum_list_replicate)

lemma fanout_returns:
  "\<exists>schedule s d.
     runFanout models svc params dashboard schedule (startFanout dashboard) = Some s
     \<and> caller s = Returned d
     \<and> length schedule = 4 * length (Spec_Charts (Spec dashboard)) + 2"
  using fanout_completes [OF fanoutInv_start stepsLeft_start] .

lemma stepsLeft_Returned:
  assumes inv: "fanoutInv models svc params dashboard s"
  shows "(\<exists>d. caller s = Returned d) = (stepsLeft dashboard s = 0)"
proof
  assume "\<exists>d. caller s = Returned d"
  then obtain d where d: "caller s = Returned d" ..
  with inv have "\<forall>i < length (goroutines s). goroutines s ! i = Finished"
    by (simp add: fanoutInv_def Let_def)
  then have "\<forall>g \<in> set (goroutines s). remaining g = 0"
    by (auto simp: in_set_conv_nth)
  then have "sum_list (map remaining (goroutines s)) = 0"
    by simp
  with d show "stepsLeft dashboard s = 0"
    by (simp add: stepsLeft_def)
next
  assume "stepsLeft dashboard s = 0"
  then show "\<exists>d. caller s = Returned d"
    by (rule stepsLeft_0_Returned)
qed

lemma fanout_bounded:
  assumes "runFanout models svc params dashboard schedule (startFanout dashboard) = Some s"
  shows "length schedule \<le> 4 * length (Spec_Charts (Spec dashboard)) + 2
         \<and> (\<exists>d. caller s = Returned d)
             = (length schedule = 4 * length (Spec_Charts (Spec dashboard)) + 2)
         \<and> ((\<forall>d. caller s \<noteq> Returned d) \<longrightarrow>
              (\<exists>t s'. fanoutStep models svc params dashboard t s = Some s'))"
proof -
  have inv: "fanoutInv models svc params dashboard s"
    using fanoutInv_start assms by (rule fanoutInv_run)
  have "length schedule + stepsLeft dashboard s = 4 * length (Spec_Charts (Spec dashboard)) + 2"
    using stepsLeft_run [OF fanoutInv_start assms] by (simp add: stepsLeft_start)
  moreover note stepsLeft_Returned [OF inv] fanout_progress [OF inv]
  ultimately show ?thesis
    by auto
qed

end
